theory Spec2Isabelle
  imports Complex_Main
begin

section \<open>The code-example viewer (component \<open>CodeExamples\<close>)\<close>

subsection \<open>The declared examples\<close>

text \<open>
  The component renders a constant array \<open>examples\<close> of three objects with the fields
  \<open>id\<close>, \<open>title\<close>, \<open>icon\<close>, \<open>description\<close>, \<open>language\<close> and \<open>code\<close>. The field \<open>id\<close>
  is called \<open>ex_id\<close> here, because \<open>id\<close> is the identity function of HOL. The icons are
  components of an icon library; only their identity matters.
\<close>

datatype icon = Globe | Code | Terminal

record example =
  ex_id :: string
  title :: string
  icon :: icon
  description :: string
  language :: string
  code :: string

text \<open>
  The three sample texts, character by character as the template literals of the source
  evaluate (a doubled backslash of the literal is one backslash of the text).
\<close>

definition multi_llm_code :: string where
  \<open>multi_llm_code =
    ''# Store memory from OpenAI conversation\<newline>'' @
    ''curl -X POST "http://localhost:8000/memory" '' @
    [CHR 0x5C] @
    ''\<newline>'' @
    ''  -H "Content-Type: application/json" '' @
    [CHR 0x5C] @
    ''\<newline>'' @
    ''  -d \'{\<newline>'' @
    ''    "user_id": "alice",\<newline>'' @
    ''    "llm": "gpt-4o",\<newline>'' @
    ''    "content": "Alice prefers concise explanations and code examples"\<newline>'' @
    ''  }\'\<newline>'' @
    ''\<newline>'' @
    ''# Store memory from Claude conversation  \<newline>'' @
    ''curl -X POST "http://localhost:8000/memory" '' @
    [CHR 0x5C] @
    ''\<newline>'' @
    ''  -H "Content-Type: application/json" '' @
    [CHR 0x5C] @
    ''\<newline>'' @
    ''  -d \'{\<newline>'' @
    ''    "user_id": "alice", \<newline>'' @
    ''    "llm": "claude-3-opus",\<newline>'' @
    ''    "content": "Alice is working on a React project with TypeScript"\<newline>'' @
    ''  }\'\<newline>'' @
    ''\<newline>'' @
    ''# Retrieve all memories for user (cross-model context)\<newline>'' @
    ''curl "http://localhost:8000/memory/alice"\<newline>'' @
    ''\<newline>'' @
    ''# Response - memories from all models\<newline>'' @
    ''[\<newline>'' @
    ''  {\<newline>'' @
    ''    "user_id": "alice",\<newline>'' @
    ''    "llm": "gpt-4o",\<newline>'' @
    ''    "content": "Alice prefers concise explanations and code examples",\<newline>'' @
    ''    "timestamp": "2024-01-15T10:30:00Z"\<newline>'' @
    ''  },\<newline>'' @
    ''  {\<newline>'' @
    ''    "user_id": "alice", \<newline>'' @
    ''    "llm": "claude-3-opus",\<newline>'' @
    ''    "content": "Alice is working on a React project with TypeScript",\<newline>'' @
    ''    "timestamp": "2024-01-15T10:32:00Z"\<newline>'' @
    ''  }\<newline>'' @
    '']''\<close>

definition python_api_code :: string where
  \<open>python_api_code =
    ''from app.memory import MemoryItem, memory_store\<newline>'' @
    ''\<newline>'' @
    ''# Store memories from different LLMs\<newline>'' @
    ''models = ["gpt-4o", "claude-3-opus", "gemini-pro", "grok-1"]\<newline>'' @
    ''\<newline>'' @
    ''for model in models:\<newline>'' @
    ''    memory_store.add(\<newline>'' @
    ''        MemoryItem(\<newline>'' @
    ''            user_id="bob",\<newline>'' @
    ''            llm=model,\<newline>'' @
    ''            content=f"Bob\'s preferences learned via {model}"\<newline>'' @
    ''        )\<newline>'' @
    ''    )\<newline>'' @
    ''\<newline>'' @
    ''# Get all memories regardless of source model\<newline>'' @
    ''all_memories = memory_store.get("bob")\<newline>'' @
    ''print(f"Total memories from {len(set(m.llm for m in all_memories))} models")\<newline>'' @
    ''\<newline>'' @
    ''# Search across all models\<newline>'' @
    ''results = memory_store.search("bob", "preferences")\<newline>'' @
    ''for result in results:\<newline>'' @
    ''    print(f"{result.llm}: {result.content}")\<newline>'' @
    ''\<newline>'' @
    ''# Get memories by specific model\<newline>'' @
    ''claude_memories = [m for m in all_memories if m.llm == "claude-3-opus"]\<newline>'' @
    ''print(f"Claude-specific memories: {len(claude_memories)}")''\<close>

definition openai_plugin_code :: string where
  \<open>openai_plugin_code =
    ''{\<newline>'' @
    ''  "schema_version": "v1",\<newline>'' @
    ''  "name_for_model": "mcp_memory",\<newline>'' @
    ''  "name_for_human": "Memory Storage",\<newline>'' @
    ''  "description_for_model": "Store and retrieve user context and memories",\<newline>'' @
    ''  "description_for_human": "Persistent memory for AI conversations",\<newline>'' @
    ''  "auth": {\<newline>'' @
    ''    "type": "none"\<newline>'' @
    ''  },\<newline>'' @
    ''  "api": {\<newline>'' @
    ''    "type": "openapi",\<newline>'' @
    ''    "url": "http://localhost:8000/openapi.json"\<newline>'' @
    ''  },\<newline>'' @
    ''  "logo_url": "http://localhost:8000/logo.png",\<newline>'' @
    ''  "contact_email": "support@mcp.dev",\<newline>'' @
    ''  "legal_info_url": "http://localhost:8000/legal"\<newline>'' @
    ''}''\<close>

definition examples :: "example list" where
  "examples =
    [\<lparr>ex_id = ''multi-llm'', title = ''Multi-LLM Memory'', icon = Globe,
      description = ''Share memories across OpenAI, Claude, Gemini, and Grok'',
      language = ''bash'', code = multi_llm_code\<rparr>,
     \<lparr>ex_id = ''python-api'', title = ''Cross-Model Python API'', icon = Code,
      description = ''Manage memories across multiple LLMs in Python'',
      language = ''python'', code = python_api_code\<rparr>,
     \<lparr>ex_id = ''openai-plugin'', title = ''OpenAI Plugin Setup'', icon = Terminal,
      description = ''Configure as a ChatGPT plugin for automatic memory management'',
      language = ''json'', code = openai_plugin_code\<rparr>]"

subsection \<open>The active example\<close>

text \<open>
  \<open>const activeExample = examples.find(ex => ex.id === activeTab) || examples[0]\<close>.
  \<open>Array.prototype.find\<close> returns the first matching element or \<open>undefined\<close>; an object
  is truthy, so \<open>||\<close> takes its right operand exactly when nothing matched. Reading index
  0 of an array yields \<open>undefined\<close> when the array is empty. \<open>None\<close> stands for
  \<open>undefined\<close>.
\<close>

definition activeExample :: "string \<Rightarrow> example option" where
  "activeExample activeTab =
     (case find (\<lambda>ex. ex_id ex = activeTab) examples of
        Some ex \<Rightarrow> Some ex
      | None \<Rightarrow> (case examples of [] \<Rightarrow> None | ex0 # _ \<Rightarrow> Some ex0))"

subsection \<open>State, clipboard writes and timers\<close>

text \<open>
  The component holds two pieces of React state: \<open>activeTab\<close> (a string, initially
  \<open>examples[0].id\<close>) and \<open>copiedStates\<close> (a \<open>Record<string, boolean>\<close>, initially
  \<open>{}\<close>). Around them stands what the handlers hand to the platform:
  \<^item> \<open>pendingWrites\<close>: the calls of \<open>navigator.clipboard.writeText\<close> that have not
    settled, each under the handle of its promise, with the \<open>id\<close> that the suspended
    \<open>copyToClipboard\<close> holds as its parameter; \<open>nextWrite\<close> is the next fresh handle;
  \<^item> \<open>timers\<close>: the callbacks registered by \<open>setTimeout\<close> and not yet run, as pairs of
    the due time and the \<open>id\<close> the callback closes over. Every timer of the component
    has the same delay, so the platform runs them in the order of their registration:
    the list is a queue;
  \<^item> \<open>now\<close>: the clock, in milliseconds;
  \<^item> \<open>console\<close>: the calls of \<open>console.error\<close>, each with its two arguments.
\<close>

record state =
  activeTab :: string
  copiedStates :: "string \<rightharpoonup> bool"
  pendingWrites :: "nat \<rightharpoonup> string \<times> string"
  nextWrite :: nat
  timers :: "(nat \<times> string) list"
  now :: nat
  console :: "(string \<times> string) list"

definition init :: state where
  "init = \<lparr>activeTab = ex_id (examples ! 0), copiedStates = Map.empty,
            pendingWrites = Map.empty, nextWrite = 0, timers = [], now = 0, console = []\<rparr>"

text \<open>The setters of the two \<open>useState\<close> hooks, as the handlers call them.\<close>

definition setActiveTab :: "string \<Rightarrow> state \<Rightarrow> state" where
  "setActiveTab i s = s\<lparr>activeTab := i\<rparr>"

definition setCopiedStates :: "string \<Rightarrow> bool \<Rightarrow> state \<Rightarrow> state" where
  \<comment> \<open>\<open>setCopiedStates(prev => ({ ...prev, [id]: b }))\<close>\<close>
  "setCopiedStates i b s = s\<lparr>copiedStates := (copiedStates s)(i \<mapsto> b)\<rparr>"

definition setTimeout :: "string \<Rightarrow> nat \<Rightarrow> state \<Rightarrow> state" where
  \<comment> \<open>registers the callback that resets the flag of \<open>i\<close>, due after \<open>delay\<close> ms\<close>
  "setTimeout i delay s = s\<lparr>timers := timers s @ [(now s + delay, i)]\<rparr>"

definition console_error :: "string \<Rightarrow> string \<Rightarrow> state \<Rightarrow> state" where
  "console_error msg err s = s\<lparr>console := console s @ [(msg, err)]\<rparr>"

text \<open>
  \<open>copyToClipboard(text, id)\<close> is an \<open>async\<close> function; it runs in two parts. The first
  part calls \<open>writeText\<close> and suspends at \<open>await\<close>. The second part runs when the promise
  has settled: after a fulfilment the rest of the \<open>try\<close> block, after a rejection the
  \<open>catch\<close> block. An exception is a value \<open>Inl\<close>; \<open>copyToClipboard_resume\<close> returns
  \<open>Inl\<close> when an exception leaves the function.
\<close>

datatype outcome = Fulfilled | Rejected string

definition copyToClipboard :: "string \<Rightarrow> string \<Rightarrow> state \<Rightarrow> state" where
  "copyToClipboard text i s =
     s\<lparr>pendingWrites := (pendingWrites s)(nextWrite s \<mapsto> (text, i)),
       nextWrite := nextWrite s + 1\<rparr>"

definition try_block :: "outcome \<Rightarrow> string \<Rightarrow> state \<Rightarrow> string + state" where
  "try_block r i s =
     (case r of
        Rejected err \<Rightarrow> Inl err
      | Fulfilled \<Rightarrow> Inr (setTimeout i 2000 (setCopiedStates i True s)))"

definition copyToClipboard_resume :: "outcome \<Rightarrow> string \<Rightarrow> state \<Rightarrow> string + state" where
  "copyToClipboard_resume r i s =
     (case try_block r i s of
        Inl err \<Rightarrow> Inr (console_error ''Failed to copy text: '' err s)
      | Inr s' \<Rightarrow> Inr s')"

definition timer_callback :: "string \<Rightarrow> state \<Rightarrow> state" where
  \<comment> \<open>the arrow function given to \<open>setTimeout\<close>\<close>
  "timer_callback i s = setCopiedStates i False s"

subsection \<open>Events\<close>

text \<open>
  What can happen to the mounted component:
  \<^item> \<open>TabClick j\<close>: a click on the tab button rendered for \<open>examples[j]\<close>, whose handler
    is \<open>() => setActiveTab(example.id)\<close>;
  \<^item> \<open>CopyClick\<close>: a click on the copy button, whose handler is
    \<open>() => copyToClipboard(activeExample.code, activeExample.id)\<close>;
  \<^item> \<open>WriteSettled h r\<close>: the clipboard write with handle \<open>h\<close> settles with outcome \<open>r\<close>;
  \<^item> \<open>Elapse d\<close>: \<open>d\<close> milliseconds pass;
  \<^item> \<open>TimerFire\<close>: the platform runs the oldest timer, which it does no earlier than
    the timer is due.
  \<open>step\<close> is \<open>None\<close> where the event cannot happen: there is no such button, the
  render has no example to show, no such write is pending, no timer is due. It would be
  \<open>None\<close> as well if an exception left the resumed \<open>copyToClipboard\<close>; the \<open>catch\<close>
  block sees to it that none does.
\<close>

datatype event =
  TabClick nat
| CopyClick
| WriteSettled nat outcome
| Elapse nat
| TimerFire

fun step :: "event \<Rightarrow> state \<Rightarrow> state option" where
  "step (TabClick j) s =
     (if j < length examples then Some (setActiveTab (ex_id (examples ! j)) s) else None)"
| "step CopyClick s =
     (case activeExample (activeTab s) of
        None \<Rightarrow> None
      | Some ex \<Rightarrow> Some (copyToClipboard (code ex) (ex_id ex) s))"
| "step (WriteSettled h r) s =
     (case pendingWrites s h of
        None \<Rightarrow> None
      | Some (text, i) \<Rightarrow>
          (case copyToClipboard_resume r i (s\<lparr>pendingWrites := (pendingWrites s)(h := None)\<rparr>) of
             Inl err \<Rightarrow> None
           | Inr s' \<Rightarrow> Some s'))"
| "step (Elapse d) s = Some (s\<lparr>now := now s + d\<rparr>)"
| "step TimerFire s =
     (case timers s of
        [] \<Rightarrow> None
      | (due, i) # rest \<Rightarrow>
          (if due \<le> now s then Some (timer_callback i (s\<lparr>timers := rest\<rparr>)) else None))"

fun run :: "event list \<Rightarrow> state \<Rightarrow> state option" where
  "run [] s = Some s"
| "run (e # es) s = (case step e s of None \<Rightarrow> None | Some s' \<Rightarrow> run es s')"

fun fires :: "event list \<Rightarrow> nat" where
  \<comment> \<open>how many timers an event sequence runs\<close>
  "fires [] = 0"
| "fires (TimerFire # es) = Suc (fires es)"
| "fires (e # es) = fires es"

text \<open>The three identifiers that the viewer declares.\<close>

definition declared_ids :: "string set" where
  "declared_ids = {''multi-llm'', ''python-api'', ''openai-plugin''}"

section \<open>The navigation bar (component \<open>Navigation\<close>) and the routes of \<open>App\<close>\<close>

subsection \<open>Items, state and handlers\<close>

record nav_item =
  name :: string
  path :: string

definition navItems :: "nav_item list" where
  "navItems =
    [\<lparr>name = ''Home'', path = ''/''\<rparr>,
     \<lparr>name = ''Docs'', path = ''/docs''\<rparr>,
     \<lparr>name = ''Studio'', path = ''/studio''\<rparr>]"

text \<open>
  \<open>isOpen\<close> and \<open>scrolled\<close> are the two \<open>useState\<close> hooks of the component, both
  initially \<open>false\<close>; \<open>pathname\<close> is \<open>location.pathname\<close>, which the component reads
  from the router through \<open>useLocation()\<close>. The component can be mounted at any path.
\<close>

record navigation =
  isOpen :: bool
  scrolled :: bool
  pathname :: string

definition nav_init :: "string \<Rightarrow> navigation" where
  "nav_init p = \<lparr>isOpen = False, scrolled = False, pathname = p\<rparr>"

definition setIsOpen :: "bool \<Rightarrow> navigation \<Rightarrow> navigation" where
  "setIsOpen b s = s\<lparr>isOpen := b\<rparr>"

definition setScrolled :: "bool \<Rightarrow> navigation \<Rightarrow> navigation" where
  "setScrolled b s = s\<lparr>scrolled := b\<rparr>"

text \<open>
  \<open>const handleScroll = () => { setScrolled(window.scrollY > 50) }\<close>. The handler reads
  \<open>window.scrollY\<close>, a finite number of pixels that may have a fraction; the comparison
  of such a number with 50 is exact, so the offset is a real number here.
\<close>

definition handleScroll :: "real \<Rightarrow> navigation \<Rightarrow> navigation" where
  "handleScroll scrollY s = setScrolled (scrollY > 50) s"

subsection \<open>The links that are rendered\<close>

text \<open>
  A rendered \<open>Link\<close>: its target \<open>to\<close>, its class list, its text, whether the underline
  element is rendered inside it, and whether it carries the handler
  \<open>onClick={() => setIsOpen(false)}\<close>. The desktop links and the link around the logo
  have no \<open>onClick\<close>; the links of the mobile menu have it.
\<close>

record link =
  to :: string
  className :: string
  label :: string
  underline :: bool
  closesMenu :: bool

definition logoLink :: link where
  "logoLink = \<lparr>to = ''/'', className = ''flex items-center space-x-3 group'', label = ''MCP'',
                underline = False, closesMenu = False\<rparr>"

definition desktopLink :: "string \<Rightarrow> nav_item \<Rightarrow> link" where
  "desktopLink pathname_now item =
     \<lparr>to = path item,
      className = ''relative text-sm font-medium transition-colors hover:text-primary '' @
        (if pathname_now = path item then ''text-primary'' else ''text-muted-foreground''),
      label = name item,
      underline = (pathname_now = path item),
      closesMenu = False\<rparr>"

definition mobileLink :: "string \<Rightarrow> nav_item \<Rightarrow> link" where
  "mobileLink pathname_now item =
     \<lparr>to = path item,
      className = ''block px-4 py-2 text-sm font-medium rounded-lg transition-colors '' @
        (if pathname_now = path item then ''bg-primary/20 text-primary''
         else ''text-muted-foreground hover:text-primary hover:bg-white/5''),
      label = name item,
      underline = False,
      closesMenu = True\<rparr>"

definition desktopLinks :: "string \<Rightarrow> link list" where
  "desktopLinks pathname_now = map (desktopLink pathname_now) navItems"

definition mobileLinks :: "string \<Rightarrow> link list" where
  "mobileLinks pathname_now = map (mobileLink pathname_now) navItems"

text \<open>
  A click on a rendered \<open>Link\<close> first runs its \<open>onClick\<close>, if it has one. Then the
  router navigates to \<open>to\<close>, so that \<open>location.pathname\<close> becomes that path, when the
  click is a plain one: made with the primary button and with no modifier key held.
  After any other click (with the control, shift, alt or meta key held, or with another
  button) the router leaves the click to the browser and the location of this page stays
  as it is. None of the handlers of the bar prevents the default action.
\<close>

definition navigate :: "string \<Rightarrow> navigation \<Rightarrow> navigation" where
  "navigate p s = s\<lparr>pathname := p\<rparr>"

definition clickLink :: "bool \<Rightarrow> link \<Rightarrow> navigation \<Rightarrow> navigation" where
  "clickLink plain l s =
     (let s' = (if closesMenu l then setIsOpen False s else s)
      in if plain then navigate (to l) s' else s')"

subsection \<open>Events of the navigation bar\<close>

text \<open>
  \<^item> \<open>Scroll y\<close>: a scroll event of the window, at offset \<open>y\<close>;
  \<^item> \<open>MenuButtonClick\<close>: a click on the menu button, \<open>() => setIsOpen(!isOpen)\<close>;
  \<^item> \<open>LogoClick\<close>, \<open>DesktopLinkClick j\<close>, \<open>MobileLinkClick j\<close>: a plain click on the
    logo link, on the \<open>j\<close>-th desktop link, on the \<open>j\<close>-th link of the mobile menu;
  \<^item> \<open>LogoModifiedClick\<close>, \<open>DesktopLinkModifiedClick j\<close>, \<open>MobileLinkModifiedClick j\<close>:
    a click on the same links that is not a plain one.
  Which of the links the style sheet shows at the current width of the window is not
  part of the component's state.
\<close>

datatype nav_event =
  Scroll real
| MenuButtonClick
| LogoClick
| DesktopLinkClick nat
| MobileLinkClick nat
| LogoModifiedClick
| DesktopLinkModifiedClick nat
| MobileLinkModifiedClick nat

fun nav_step :: "nav_event \<Rightarrow> navigation \<Rightarrow> navigation option" where
  "nav_step (Scroll y) s = Some (handleScroll y s)"
| "nav_step MenuButtonClick s = Some (setIsOpen (\<not> isOpen s) s)"
| "nav_step LogoClick s = Some (clickLink True logoLink s)"
| "nav_step (DesktopLinkClick j) s =
     (if j < length (desktopLinks (pathname s))
      then Some (clickLink True (desktopLinks (pathname s) ! j) s) else None)"
| "nav_step (MobileLinkClick j) s =
     (if j < length (mobileLinks (pathname s))
      then Some (clickLink True (mobileLinks (pathname s) ! j) s) else None)"
| "nav_step LogoModifiedClick s = Some (clickLink False logoLink s)"
| "nav_step (DesktopLinkModifiedClick j) s =
     (if j < length (desktopLinks (pathname s))
      then Some (clickLink False (desktopLinks (pathname s) ! j) s) else None)"
| "nav_step (MobileLinkModifiedClick j) s =
     (if j < length (mobileLinks (pathname s))
      then Some (clickLink False (mobileLinks (pathname s) ! j) s) else None)"

fun nav_run :: "nav_event list \<Rightarrow> navigation \<Rightarrow> navigation option" where
  "nav_run [] s = Some s"
| "nav_run (e # es) s = (case nav_step e s of None \<Rightarrow> None | Some s' \<Rightarrow> nav_run es s')"

subsection \<open>The routes\<close>

text \<open>
  \<open>App\<close> registers two routes, \<open>/\<close> with the element \<open>HomePage\<close> and \<open>/docs\<close> with the
  element \<open>DocsPage\<close>. The router is a library; \<open>matchPath\<close> is what it does with a route
  path that has no parameter and no wildcard: the location matches when it equals the
  path, not regarding the case of letters and slashes at the end. \<open>Routes\<close> renders the
  element of the route that matches, and nothing (\<open>None\<close>) when none does.
\<close>

datatype page = HomePage | DocsPage

definition routes :: "(string \<times> page) list" where
  "routes = [(''/'', HomePage), (''/docs'', DocsPage)]"

definition lower :: "char \<Rightarrow> char" where
  \<comment> \<open>an upper-case letter (codes 65 to 90) and its lower-case letter differ in the bit
      of value 32\<close>
  "lower c = (if 65 \<le> (of_char c :: nat) \<and> (of_char c :: nat) \<le> 90
              then (case c of Char b0 b1 b2 b3 b4 b5 b6 b7 \<Rightarrow> Char b0 b1 b2 b3 b4 True b6 b7)
              else c)"

definition normalise :: "string \<Rightarrow> string" where
  "normalise p = map lower (rev (dropWhile (\<lambda>c. c = CHR ''/'') (rev p)))"

definition matchPath :: "string \<Rightarrow> string \<Rightarrow> bool" where
  "matchPath pattern p = (normalise pattern = normalise p)"

definition Routes :: "string \<Rightarrow> page option" where
  "Routes p = map_option snd (find (\<lambda>r. matchPath (fst r) p) routes)"

section \<open>Entrance animations\<close>

text \<open>
  The elements of \<open>FeaturesSection\<close> and \<open>CodeExamples\<close> that have a \<open>whileInView\<close>
  animation, in the order of the source; where the source renders one element for each
  entry of an array, the constructor carries the index of the entry.
\<close>

datatype animated =
  FeaturesHeader
| FeatureCard nat
| UseCasesHeader
| UseCaseCard nat
| StatsPanel
| StatCard nat
| ExamplesHeader
| ExamplesTabs
| ExamplesCodeBlock
| ExamplesQuickStart

text \<open>The \<open>once\<close> field of the \<open>viewport\<close> property that the source gives each of them.\<close>

fun viewport_once :: "animated \<Rightarrow> bool" where
  "viewport_once FeaturesHeader = True"
| "viewport_once (FeatureCard index) = True"
| "viewport_once UseCasesHeader = True"
| "viewport_once (UseCaseCard index) = True"
| "viewport_once StatsPanel = True"
| "viewport_once (StatCard index) = True"
| "viewport_once ExamplesHeader = True"
| "viewport_once ExamplesTabs = True"
| "viewport_once ExamplesCodeBlock = True"
| "viewport_once ExamplesQuickStart = True"

definition onViewportChange :: "bool \<Rightarrow> bool \<Rightarrow> bool \<Rightarrow> bool" where
  \<comment> \<open>Modelled from the spec: the observation of an element against the viewport is done
      by the animation library, which is not among the sources. The visibility flag
      becomes true when the element is reported as intersecting; with \<open>once\<close> it is never
      reverted, without \<open>once\<close> it follows the report.\<close>
  "onViewportChange once isIntersecting visible =
     (if isIntersecting then True else if once then visible else False)"

fun observe :: "animated \<Rightarrow> bool list \<Rightarrow> bool \<Rightarrow> bool" where
  \<comment> \<open>the flag of an element after a sequence of reports (\<open>True\<close>: intersecting)\<close>
  "observe a [] visible = visible"
| "observe a (isIntersecting # reports) visible =
     observe a reports (onViewportChange (viewport_once a) isIntersecting visible)"

section \<open>Properties of the code-example viewer\<close>

subsection \<open>Auxiliary facts\<close>

lemmas setters = setActiveTab_def setCopiedStates_def setTimeout_def console_error_def
  copyToClipboard_def try_block_def copyToClipboard_resume_def timer_callback_def

lemmas eval_defs = init_def examples_def activeExample_def setters

lemma now_step: "step e s = Some s' \<Longrightarrow> now s \<le> now s'"
  by (cases e)
    (auto simp: setters split: if_splits option.splits list.splits outcome.splits prod.splits)

lemma now_run: "run es s = Some s' \<Longrightarrow> now s \<le> now s'"
proof (induction es arbitrary: s)
  case Nil
  then show ?case by simp
next
  case (Cons e es)
  then obtain s1 where s1: "step e s = Some s1" and r: "run es s1 = Some s'"
    by (auto split: option.splits)
  from now_step[OF s1] Cons.IH[OF r] show ?case by simp
qed

text \<open>What one event does to the queue of timers.\<close>

lemma timers_step_fire:
  "step TimerFire s = Some s' \<Longrightarrow>
     \<exists>due i rest. timers s = (due, i) # rest \<and> due \<le> now s \<and>
        s' = s\<lparr>timers := rest, copiedStates := (copiedStates s)(i \<mapsto> False)\<rparr>"
  by (auto simp: setters split: list.splits if_splits)

lemma timers_step_other:
  "step e s = Some s' \<Longrightarrow> e \<noteq> TimerFire \<Longrightarrow> \<exists>new. timers s' = timers s @ new"
  by (cases e) (auto simp: setters split: if_splits option.splits outcome.splits prod.splits)

lemma fires_other: "e \<noteq> TimerFire \<Longrightarrow> fires (e # es) = fires es"
  by (cases e) simp_all

text \<open>
  A timer that has \<open>length pre\<close> timers before it in the queue is the oldest one after
  exactly that many timers have run.
\<close>

lemma timer_reaches_head:
  "run es s = Some s' \<Longrightarrow> timers s = pre @ t # post \<Longrightarrow> fires es = length pre \<Longrightarrow>
     \<exists>post'. timers s' = t # post'"
proof (induction es arbitrary: s pre post)
  case Nil
  then show ?case by simp
next
  case (Cons e es)
  from Cons.prems(1) obtain s1 where s1: "step e s = Some s1" and r: "run es s1 = Some s'"
    by (auto split: option.splits)
  show ?case
  proof (cases "e = TimerFire")
    case True
    with Cons.prems(3) obtain p pre' where pre: "pre = p # pre'" and f: "fires es = length pre'"
      by (cases pre) auto
    from timers_step_fire[OF s1[unfolded True]] Cons.prems(2) pre
    have "timers s1 = pre' @ t # post"
      by auto
    from Cons.IH[OF r this f] show ?thesis .
  next
    case False
    from timers_step_other[OF s1 False] obtain new where "timers s1 = timers s @ new" ..
    with Cons.prems(2) have t1: "timers s1 = pre @ t # (post @ new)" by simp
    from Cons.prems(3) False have f: "fires es = length pre" by (simp add: fires_other)
    from Cons.IH[OF r t1 f] show ?thesis .
  qed
qed

text \<open>A timer that has run was due: the clock has reached its due time.\<close>

lemma timer_fired_is_due:
  "run es s = Some s' \<Longrightarrow> k < length (timers s) \<Longrightarrow> k < fires es \<Longrightarrow>
     fst (timers s ! k) \<le> now s'"
proof (induction es arbitrary: s k)
  case Nil
  then show ?case by simp
next
  case (Cons e es)
  from Cons.prems(1) obtain s1 where s1: "step e s = Some s1" and r: "run es s1 = Some s'"
    by (auto split: option.splits)
  show ?case
  proof (cases "e = TimerFire")
    case True
    from timers_step_fire[OF s1[unfolded True]]
    obtain due i rest where q: "timers s = (due, i) # rest" and d: "due \<le> now s"
      and t1: "timers s1 = rest" and n1: "now s1 = now s"
      by auto
    show ?thesis
    proof (cases k)
      case 0
      with q d n1 now_run[OF r] show ?thesis by simp
    next
      case (Suc k')
      with Cons.prems(2,3) q t1 True have "k' < length (timers s1)" "k' < fires es" by auto
      from Cons.IH[OF r this] Suc q t1 show ?thesis by simp
    qed
  next
    case False
    from timers_step_other[OF s1 False] obtain new where t1: "timers s1 = timers s @ new" ..
    with Cons.prems(2) have k1: "k < length (timers s1)" by simp
    from Cons.prems(3) False have f: "k < fires es" by (simp add: fires_other)
    from Cons.IH[OF r k1 f] t1 Cons.prems(2) show ?thesis by (simp add: nth_append)
  qed
qed

text \<open>Only a timer that closes over \<open>X\<close> takes the flag of \<open>X\<close> back.\<close>

lemma flag_step_other:
  "step e s = Some s' \<Longrightarrow> e \<noteq> TimerFire \<Longrightarrow> copiedStates s X = Some True \<Longrightarrow>
     copiedStates s' X = Some True"
  by (cases e) (auto simp: setters split: if_splits option.splits outcome.splits prod.splits)

lemma flag_stays_until_fired:
  "run es s = Some s' \<Longrightarrow> fires es \<le> length (timers s) \<Longrightarrow>
   X \<notin> snd ` set (take (fires es) (timers s)) \<Longrightarrow> copiedStates s X = Some True \<Longrightarrow>
     copiedStates s' X = Some True"
proof (induction es arbitrary: s)
  case Nil
  then show ?case by simp
next
  case (Cons e es)
  from Cons.prems(1) obtain s1 where s1: "step e s = Some s1" and r: "run es s1 = Some s'"
    by (auto split: option.splits)
  show ?case
  proof (cases "e = TimerFire")
    case True
    from timers_step_fire[OF s1[unfolded True]]
    obtain due i rest where q: "timers s = (due, i) # rest"
      and t1: "timers s1 = rest" and c1: "copiedStates s1 = (copiedStates s)(i \<mapsto> False)"
      by auto
    from Cons.prems(2,3) True q have "i \<noteq> X" and f: "fires es \<le> length rest"
      and nx: "X \<notin> snd ` set (take (fires es) rest)"
      by auto
    with c1 Cons.prems(4) have "copiedStates s1 X = Some True" by simp
    from Cons.IH[OF r] f nx t1 this show ?thesis by simp
  next
    case False
    from timers_step_other[OF s1 False] obtain new where t1: "timers s1 = timers s @ new" ..
    from Cons.prems(2,3) False have f: "fires es \<le> length (timers s)"
      and nx: "X \<notin> snd ` set (take (fires es) (timers s))"
      by (simp_all add: fires_other)
    from flag_step_other[OF s1 False Cons.prems(4)] have c: "copiedStates s1 X = Some True" .
    from Cons.IH[OF r] f nx t1 c show ?thesis by simp
  qed
qed

text \<open>A pending clipboard write stays as it is until it settles.\<close>

lemma pending_step:
  "step e s = Some s' \<Longrightarrow> pendingWrites s h = Some v \<Longrightarrow> h < nextWrite s \<Longrightarrow>
   \<forall>r. e \<noteq> WriteSettled h r \<Longrightarrow> pendingWrites s' h = Some v \<and> h < nextWrite s'"
  by (cases e)
    (auto simp: setters split: if_splits option.splits outcome.splits prod.splits list.splits)

lemma pending_run:
  "run es s = Some s' \<Longrightarrow> pendingWrites s h = Some v \<Longrightarrow> h < nextWrite s \<Longrightarrow>
   \<forall>r. WriteSettled h r \<notin> set es \<Longrightarrow> pendingWrites s' h = Some v \<and> h < nextWrite s'"
proof (induction es arbitrary: s)
  case Nil
  then show ?case by simp
next
  case (Cons e es)
  from Cons.prems(1) obtain s1 where s1: "step e s = Some s1" and r: "run es s1 = Some s'"
    by (auto split: option.splits)
  from Cons.prems(4) have ne: "\<forall>r. e \<noteq> WriteSettled h r"
    and rest: "\<forall>r. WriteSettled h r \<notin> set es"
    by auto
  from pending_step[OF s1 Cons.prems(2,3) ne]
  have "pendingWrites s1 h = Some v" and "h < nextWrite s1" by simp_all
  from Cons.IH[OF r this rest] show ?case .
qed

lemma click_effect:
  "activeExample (activeTab s0) = Some ex \<Longrightarrow> step CopyClick s0 = Some s1 \<Longrightarrow>
     pendingWrites s1 (nextWrite s0) = Some (code ex, ex_id ex) \<and> nextWrite s0 < nextWrite s1 \<and>
     timers s1 = timers s0 \<and> copiedStates s1 = copiedStates s0 \<and> activeTab s1 = activeTab s0"
  by (auto simp: setters)

lemma resolve_effect:
  "pendingWrites s h = Some (text, X) \<Longrightarrow> step (WriteSettled h Fulfilled) s = Some s1 \<Longrightarrow>
     copiedStates s1 = (copiedStates s)(X \<mapsto> True) \<and>
     timers s1 = timers s @ [(now s + 2000, X)] \<and> now s1 = now s"
  by (auto simp: setters)

text \<open>The active tab stays among the declared identifiers.\<close>

lemma tabclick_declared: "step (TabClick j) s = Some s' \<Longrightarrow> activeTab s' \<in> declared_ids"
  by (auto simp: setters examples_def declared_ids_def less_Suc_eq split: if_splits)

lemma activeTab_step:
  "step e s = Some s' \<Longrightarrow> activeTab s \<in> declared_ids \<Longrightarrow> activeTab s' \<in> declared_ids"
proof (cases e)
  case (TabClick j)
  assume "step e s = Some s'"
  with TabClick show ?thesis by (simp only: tabclick_declared)
qed (auto simp: setters split: if_splits option.splits outcome.splits prod.splits list.splits)

lemma activeTab_run:
  "run es s = Some s' \<Longrightarrow> activeTab s \<in> declared_ids \<Longrightarrow> activeTab s' \<in> declared_ids"
proof (induction es arbitrary: s)
  case Nil
  then show ?case by simp
next
  case (Cons e es)
  from Cons.prems(1) obtain s1 where s1: "step e s = Some s1" and r: "run es s1 = Some s'"
    by (auto split: option.splits)
  from Cons.IH[OF r activeTab_step[OF s1 Cons.prems(2)]] show ?case .
qed

subsection \<open>The example that is shown\<close>

text \<open>
  Claim C10. For every value of \<open>activeTab\<close> the viewer has an example to render: the
  lookup yields one of the declared examples and never \<open>undefined\<close>. When \<open>activeTab\<close>
  is the identifier of a declared example, it yields the example with that identifier;
  when \<open>activeTab\<close> matches no entry, it falls back to the first example. So the header,
  the copy button and the code panel never read a field of a missing example.
\<close>

theorem activeExample_never_undefined:
  "\<exists>ex. activeExample t = Some ex \<and> ex \<in> set examples \<and>
        (t \<in> ex_id ` set examples \<longrightarrow> ex_id ex = t) \<and>
        (t \<notin> ex_id ` set examples \<longrightarrow> ex = examples ! 0)"
  by (auto simp: activeExample_def examples_def split: option.splits)

theorem activeExample_never_undefined_witness:
  "''no-such-tab'' \<notin> ex_id ` set examples \<and>
   activeExample ''no-such-tab'' = Some (examples ! 0) \<and>
   ''python-api'' \<in> ex_id ` set examples \<and>
   map_option ex_id (activeExample ''python-api'') = Some ''python-api''"
  using activeExample_never_undefined[of "''no-such-tab''"]
    activeExample_never_undefined[of "''python-api''"]
  by (auto simp: examples_def)

subsection \<open>The active tab\<close>

text \<open>
  Claim C6. In every state that the mounted viewer can reach, \<open>activeTab\<close> is one of
  the three declared identifiers \<open>multi-llm\<close>, \<open>python-api\<close> and \<open>openai-plugin\<close>, which
  are the identifiers of the entries of \<open>examples\<close>: on mount it is the identifier of the
  first example, every event sequence from there keeps it in the set, and a click on a
  tab button sets it to a member of the set whatever the state before was.
\<close>

theorem activeTab_always_declared:
  "activeTab init = ex_id (examples ! 0) \<and> activeTab init = ''multi-llm'' \<and>
   declared_ids = ex_id ` set examples \<and>
   (run es init = Some s \<longrightarrow> activeTab s \<in> declared_ids) \<and>
   (step (TabClick j) s0 = Some s1 \<longrightarrow> activeTab s1 \<in> declared_ids)"
proof -
  have i: "activeTab init = ''multi-llm''"
    by (simp add: init_def examples_def)
  then have m: "activeTab init \<in> declared_ids"
    by (simp add: declared_ids_def)
  have d: "declared_ids = ex_id ` set examples"
    by (auto simp: examples_def declared_ids_def)
  from i d activeTab_run[of es init s, OF _ m] tabclick_declared[of j s0 s1] show ?thesis
    by (auto simp: init_def)
qed

theorem activeTab_always_declared_witness:
  "map_option activeTab (run [TabClick 2, CopyClick, WriteSettled 0 Fulfilled, TabClick 1] init)
     = Some ''python-api'' \<and>
   ''python-api'' \<in> declared_ids \<and>
   map_option activeTab (step (TabClick 2) init) = Some ''openai-plugin'' \<and>
   ''openai-plugin'' \<in> declared_ids"
proof -
  define s where "s = the (run [TabClick 2, CopyClick, WriteSettled 0 Fulfilled, TabClick 1] init)"
  define s1 where "s1 = the (step (TabClick 2) init)"
  have r: "run [TabClick 2, CopyClick, WriteSettled 0 Fulfilled, TabClick 1] init = Some s"
    by (simp add: s_def eval_defs)
  have t: "step (TabClick 2) init = Some s1"
    by (simp add: s1_def eval_defs)
  have a: "activeTab s = ''python-api''" "activeTab s1 = ''openai-plugin''"
    by (simp_all add: s_def s1_def eval_defs)
  from activeTab_always_declared
    [of "[TabClick 2, CopyClick, WriteSettled 0 Fulfilled, TabClick 1]" s 2 init s1] r t a
  show ?thesis
    by simp
qed

text \<open>
  Claim C8. Selecting an example is idempotent: for every state and every tab button
  (every declared identifier), a second click on the same tab leaves the state as the
  first click made it. So \<open>activeTab\<close> is the same after two clicks as after one, and
  the second click changes neither the pending reset timers nor the pending clipboard
  writes nor the copied flags of any identifier; the first click does not change them
  either.
\<close>

theorem selectExample_idempotent:
  assumes "j < length examples"
  shows "step (TabClick j) s = Some (setActiveTab (ex_id (examples ! j)) s) \<and>
         step (TabClick j) (setActiveTab (ex_id (examples ! j)) s)
           = Some (setActiveTab (ex_id (examples ! j)) s) \<and>
         activeTab (setActiveTab (ex_id (examples ! j)) s) = ex_id (examples ! j) \<and>
         timers (setActiveTab (ex_id (examples ! j)) s) = timers s \<and>
         pendingWrites (setActiveTab (ex_id (examples ! j)) s) = pendingWrites s \<and>
         copiedStates (setActiveTab (ex_id (examples ! j)) s) = copiedStates s"
  using assms by (simp add: setActiveTab_def)

theorem selectExample_idempotent_witness:
  "(1::nat) < length examples \<and>
   run [CopyClick, WriteSettled 0 Fulfilled, TabClick 1] init
     = run [CopyClick, WriteSettled 0 Fulfilled, TabClick 1, TabClick 1] init \<and>
   map_option timers (run [CopyClick, WriteSettled 0 Fulfilled, TabClick 1, TabClick 1] init)
     = Some [(2000, ''multi-llm'')] \<and>
   map_option activeTab (run [CopyClick, WriteSettled 0 Fulfilled, TabClick 1, TabClick 1] init)
     = Some ''python-api''"
proof -
  have l: "(1::nat) < length examples" by (simp add: examples_def)
  from l selectExample_idempotent[OF l, of "the (run [CopyClick, WriteSettled 0 Fulfilled] init)"]
  show ?thesis
    by (simp add: eval_defs)
qed

subsection \<open>Copying\<close>

text \<open>
  Claim C5. Whenever a clipboard write of the viewer is rejected, the handler leaves
  the state of the component as it was: \<open>activeTab\<close> and \<open>copiedStates\<close> are unchanged
  (no flag becomes true), no reset timer is registered, the failure is logged by one
  call of \<open>console.error\<close> with the message \<open>Failed to copy text: \<close> and the reason of
  the rejection, and the resumed function ends normally (its result is \<open>Inr\<close>): no
  exception leaves it.
\<close>

theorem clipboard_failure_leaves_state:
  assumes "pendingWrites s h = Some (text, X)"
  shows "\<exists>s'. step (WriteSettled h (Rejected err)) s = Some s' \<and>
           activeTab s' = activeTab s \<and> copiedStates s' = copiedStates s \<and>
           timers s' = timers s \<and> now s' = now s \<and>
           console s' = console s @ [(''Failed to copy text: '', err)] \<and>
           pendingWrites s' = (pendingWrites s)(h := None) \<and>
           copyToClipboard_resume (Rejected err) X
             (s\<lparr>pendingWrites := (pendingWrites s)(h := None)\<rparr>) = Inr s'"
  using assms by (simp add: setters)

theorem clipboard_failure_leaves_state_witness:
  "pendingWrites (the (run [CopyClick] init)) 0 = Some (multi_llm_code, ''multi-llm'') \<and>
   map_option (\<lambda>s. (activeTab s, copiedStates s ''multi-llm'', timers s, console s))
     (run [CopyClick, WriteSettled 0 (Rejected ''NotAllowedError'')] init)
   = Some (''multi-llm'', None, [], [(''Failed to copy text: '', ''NotAllowedError'')])"
proof -
  have p: "pendingWrites (the (run [CopyClick] init)) 0 = Some (multi_llm_code, ''multi-llm'')"
    by (simp add: eval_defs)
  from clipboard_failure_leaves_state[OF p, of "''NotAllowedError''"] p show ?thesis
    by (auto simp: eval_defs)
qed

text \<open>
  Claim C4, as amended. Take a clipboard write for the identifier \<open>X\<close> that is
  fulfilled in a state where no reset timer for \<open>X\<close> is pending from an earlier copy.
  Then the flag of \<open>X\<close> is true immediately after the fulfilment; it stays true as long
  as the timer registered by this copy has not run, in particular as long as fewer
  than 2000 ms have passed since the fulfilment; that timer cannot run before 2000 ms
  have passed and can run from then on; and when it runs, the flag of \<open>X\<close> is false
  immediately afterwards. (\<open>es\<close> is what happens after the fulfilment; the timer of this
  copy is the next to run when \<open>es\<close> has run exactly the timers that were pending
  before.)
\<close>

theorem copied_flag_lifetime:
  assumes pend: "pendingWrites s h = Some (text, X)"
    and res: "step (WriteSettled h Fulfilled) s = Some s1"
    and fresh: "X \<notin> snd ` set (timers s)"
    and later: "run es s1 = Some s2"
  shows "copiedStates s1 X = Some True \<and>
         (fires es \<le> length (timers s) \<longrightarrow> copiedStates s2 X = Some True) \<and>
         (now s2 < now s + 2000 \<longrightarrow> copiedStates s2 X = Some True) \<and>
         (fires es = length (timers s) \<longrightarrow>
            (step TimerFire s2 = None \<longleftrightarrow> now s2 < now s + 2000) \<and>
            (\<forall>s3. step TimerFire s2 = Some s3 \<longrightarrow>
               now s + 2000 \<le> now s3 \<and> copiedStates s3 X = Some False))"
proof -
  from resolve_effect[OF pend res]
  have c1: "copiedStates s1 X = Some True"
    and t1: "timers s1 = timers s @ [(now s + 2000, X)]" and n1: "now s1 = now s"
    by simp_all
  have stay: "copiedStates s2 X = Some True" if f: "fires es \<le> length (timers s)"
  proof -
    from f t1 have "fires es \<le> length (timers s1)" by simp
    moreover from f t1 fresh have "X \<notin> snd ` set (take (fires es) (timers s1))"
      by (auto dest: in_set_takeD)
    ultimately show ?thesis using flag_stays_until_fired[OF later] c1 by blast
  qed
  have early: "fires es \<le> length (timers s)" if n: "now s2 < now s + 2000"
  proof (rule ccontr)
    assume "\<not> fires es \<le> length (timers s)"
    then have k: "length (timers s) < fires es" by simp
    from t1 have "length (timers s) < length (timers s1)" by simp
    from timer_fired_is_due[OF later this k] t1 have "now s + 2000 \<le> now s2" by simp
    with n show False by simp
  qed
  have fire: "(step TimerFire s2 = None \<longleftrightarrow> now s2 < now s + 2000) \<and>
      (\<forall>s3. step TimerFire s2 = Some s3 \<longrightarrow>
         now s + 2000 \<le> now s3 \<and> copiedStates s3 X = Some False)"
    if f: "fires es = length (timers s)"
  proof -
    from timer_reaches_head[OF later t1 f]
    obtain post where "timers s2 = (now s + 2000, X) # post" ..
    then show ?thesis by (auto simp: setters)
  qed
  from c1 stay early fire show ?thesis by blast
qed

theorem copied_flag_lifetime_witness:
  "map_option (\<lambda>s. (now s, copiedStates s ''multi-llm''))
     (run [CopyClick, WriteSettled 0 Fulfilled, TabClick 2, Elapse 1999] init)
       = Some (1999, Some True) \<and>
   run [CopyClick, WriteSettled 0 Fulfilled, TabClick 2, Elapse 1999, TimerFire] init = None \<and>
   map_option (\<lambda>s. (now s, copiedStates s ''multi-llm''))
     (run [CopyClick, WriteSettled 0 Fulfilled, TabClick 2, Elapse 1999, Elapse 1, TimerFire] init)
       = Some (2000, Some False)"
proof -
  define s where "s = the (run [CopyClick] init)"
  define s1 where "s1 = the (run [CopyClick, WriteSettled 0 Fulfilled] init)"
  define s2 where
    "s2 = the (run [CopyClick, WriteSettled 0 Fulfilled, TabClick 2, Elapse 1999] init)"
  define s2' where
    "s2' = the (run [CopyClick, WriteSettled 0 Fulfilled, TabClick 2, Elapse 1999, Elapse 1] init)"
  have p: "pendingWrites s 0 = Some (multi_llm_code, ''multi-llm'')"
    by (simp add: s_def eval_defs)
  have r: "step (WriteSettled 0 Fulfilled) s = Some s1"
    by (simp add: s_def s1_def eval_defs)
  have f: "''multi-llm'' \<notin> snd ` set (timers s)"
    by (simp add: s_def eval_defs)
  have l: "run [TabClick 2, Elapse 1999] s1 = Some s2"
    by (simp add: s1_def s2_def eval_defs)
  have l': "run [TabClick 2, Elapse 1999, Elapse 1] s1 = Some s2'"
    by (simp add: s1_def s2'_def eval_defs)
  from copied_flag_lifetime[OF p r f l] copied_flag_lifetime[OF p r f l'] show ?thesis
    by (simp add: s_def s1_def s2_def s2'_def eval_defs)
qed

text \<open>
  The claim as it was stated, for every successful copy, fails when a second copy of
  the same example is fulfilled while the timer of the first is pending. The first copy
  is fulfilled at time 0 and the second at time 1500; after the second fulfilment the
  flag is true. The timer of the first copy runs at time 2000 and takes the flag back,
  500 ms after the second copy and 1500 ms before the timer of the second copy is due.
\<close>

theorem copied_flag_reset_by_older_timer:
  "map_option now
     (run [CopyClick, WriteSettled 0 Fulfilled, Elapse 1500, CopyClick, WriteSettled 1 Fulfilled]
        init) = Some 1500 \<and>
   copiedStates
     (the (run [CopyClick, WriteSettled 0 Fulfilled, Elapse 1500, CopyClick,
                WriteSettled 1 Fulfilled] init)) ''multi-llm'' = Some True \<and>
   map_option timers
     (run [CopyClick, WriteSettled 0 Fulfilled, Elapse 1500, CopyClick, WriteSettled 1 Fulfilled]
        init) = Some [(2000, ''multi-llm''), (3500, ''multi-llm'')] \<and>
   map_option now
     (run [CopyClick, WriteSettled 0 Fulfilled, Elapse 1500, CopyClick, WriteSettled 1 Fulfilled,
           Elapse 500, TimerFire] init) = Some 2000 \<and>
   copiedStates
     (the (run [CopyClick, WriteSettled 0 Fulfilled, Elapse 1500, CopyClick,
                WriteSettled 1 Fulfilled, Elapse 500, TimerFire] init)) ''multi-llm''
     = Some False"
  by (simp add: eval_defs)

text \<open>
  Claim C2. Take a copy that is started (the copy button is clicked) while the
  example with identifier \<open>X = ex_id ex\<close> is the active one, and whose clipboard write
  is fulfilled later. Whatever happens in between and afterwards, tab clicks that make
  another example the active one included, the timer that this copy registers closes
  over \<open>X\<close>: when it runs, it sets the flag of \<open>X\<close> to false and leaves the flag of every
  other identifier \<open>Y\<close> as it was, the one of the tab that is active by then included.
  (\<open>es1\<close> is what happens between the click and the fulfilment, \<open>es2\<close> what happens
  between the fulfilment and the run of the timer.)
\<close>

theorem reset_timer_keeps_captured_id:
  assumes act: "activeExample (activeTab s0) = Some ex"
    and click: "step CopyClick s0 = Some s1"
    and mid: "run es1 s1 = Some s2"
    and unsettled: "\<forall>r. WriteSettled (nextWrite s0) r \<notin> set es1"
    and res: "step (WriteSettled (nextWrite s0) Fulfilled) s2 = Some s3"
    and later: "run es2 s3 = Some s4"
    and turn: "fires es2 = length (timers s2)"
    and fire: "step TimerFire s4 = Some s5"
  shows "last (timers s3) = (now s2 + 2000, ex_id ex) \<and>
         copiedStates s5 (ex_id ex) = Some False \<and>
         (\<forall>Y. Y \<noteq> ex_id ex \<longrightarrow> copiedStates s5 Y = copiedStates s4 Y)"
proof -
  from click_effect[OF act click]
  have "pendingWrites s1 (nextWrite s0) = Some (code ex, ex_id ex)" "nextWrite s0 < nextWrite s1"
    by simp_all
  from pending_run[OF mid this unsettled]
  have p2: "pendingWrites s2 (nextWrite s0) = Some (code ex, ex_id ex)" by simp
  from resolve_effect[OF p2 res]
  have t3: "timers s3 = timers s2 @ [(now s2 + 2000, ex_id ex)]" by simp
  from timer_reaches_head[OF later t3 turn]
  obtain post where t4: "timers s4 = (now s2 + 2000, ex_id ex) # post" ..
  from timers_step_fire[OF fire] t4
  have "copiedStates s5 = (copiedStates s4)(ex_id ex \<mapsto> False)" by auto
  with t3 show ?thesis by simp
qed

theorem reset_timer_keeps_captured_id_witness:
  "map_option (\<lambda>s. (activeTab s, copiedStates s ''multi-llm'', copiedStates s ''python-api''))
     (run [CopyClick, WriteSettled 0 Fulfilled, TabClick 1, CopyClick, WriteSettled 1 Fulfilled,
           Elapse 2000] init)
     = Some (''python-api'', Some True, Some True) \<and>
   map_option (\<lambda>s. (activeTab s, copiedStates s ''multi-llm'', copiedStates s ''python-api''))
     (run [CopyClick, WriteSettled 0 Fulfilled, TabClick 1, CopyClick, WriteSettled 1 Fulfilled,
           Elapse 2000, TimerFire] init)
     = Some (''python-api'', Some False, Some True)"
proof -
  define s1 where "s1 = the (run [CopyClick] init)"
  define s3 where "s3 = the (run [CopyClick, WriteSettled 0 Fulfilled] init)"
  define s4 where "s4 = the (run [CopyClick, WriteSettled 0 Fulfilled, TabClick 1, CopyClick,
    WriteSettled 1 Fulfilled, Elapse 2000] init)"
  define s5 where "s5 = the (run [CopyClick, WriteSettled 0 Fulfilled, TabClick 1, CopyClick,
    WriteSettled 1 Fulfilled, Elapse 2000, TimerFire] init)"
  have a: "activeExample (activeTab init) = Some (examples ! 0)"
    by (simp add: eval_defs)
  have c: "step CopyClick init = Some s1"
    by (simp add: s1_def eval_defs)
  have m: "run [] s1 = Some s1"
    by simp
  have u: "\<forall>r. WriteSettled (nextWrite init) r \<notin> set []"
    by simp
  have r: "step (WriteSettled (nextWrite init) Fulfilled) s1 = Some s3"
    by (simp add: s1_def s3_def eval_defs)
  have l: "run [TabClick 1, CopyClick, WriteSettled 1 Fulfilled, Elapse 2000] s3 = Some s4"
    by (simp add: s3_def s4_def eval_defs)
  have t: "fires [TabClick 1, CopyClick, WriteSettled 1 Fulfilled, Elapse 2000]
      = length (timers s1)"
    by (simp add: s1_def eval_defs)
  have f: "step TimerFire s4 = Some s5"
    by (simp add: s4_def s5_def eval_defs)
  from reset_timer_keeps_captured_id[OF a c m u r l t f] show ?thesis
    by (simp add: s4_def s5_def eval_defs)
qed

section \<open>Properties of the navigation bar\<close>

lemmas nav_defs = nav_init_def setIsOpen_def setScrolled_def handleScroll_def navigate_def
  clickLink_def logoLink_def desktopLink_def mobileLink_def desktopLinks_def mobileLinks_def
  navItems_def

lemmas route_defs = routes_def Routes_def matchPath_def normalise_def lower_def

text \<open>
  Claim C1, as amended. A click on a link of the mobile menu closes the menu: for
  every state and every entry of the bar, after a click on the entry's link in the
  mobile menu \<open>isOpen\<close> is false, whether the click is a plain one, after which the
  router navigates, or not. In particular \<open>isOpen\<close> is false whenever the path changes
  through a click on a link of the mobile menu.
\<close>

theorem mobile_link_closes_menu:
  assumes "j < length navItems"
  shows "(\<exists>s'. nav_step (MobileLinkClick j) s = Some s' \<and> isOpen s' = False) \<and>
         (\<exists>s'. nav_step (MobileLinkModifiedClick j) s = Some s' \<and> isOpen s' = False)"
  using assms
  by (simp add: mobileLinks_def mobileLink_def clickLink_def navigate_def setIsOpen_def)

theorem mobile_link_closes_menu_witness:
  "(1::nat) < length navItems \<and>
   nav_run [MenuButtonClick] (nav_init ''/'')
     = Some \<lparr>isOpen = True, scrolled = False, pathname = ''/''\<rparr> \<and>
   nav_run [MenuButtonClick, MobileLinkClick 1] (nav_init ''/'')
     = Some \<lparr>isOpen = False, scrolled = False, pathname = ''/docs''\<rparr> \<and>
   nav_run [MenuButtonClick, MobileLinkModifiedClick 1] (nav_init ''/'')
     = Some \<lparr>isOpen = False, scrolled = False, pathname = ''/''\<rparr>"
proof -
  have l: "(1::nat) < length navItems" by (simp add: navItems_def)
  from l mobile_link_closes_menu[OF l, of "\<lparr>isOpen = True, scrolled = False, pathname = ''/''\<rparr>"]
  show ?thesis
    by (auto simp: nav_defs)
qed

text \<open>
  The claim as it was stated, for a click on any link of the bar that changes the
  path, fails: only the links of the mobile menu carry the handler that closes the menu.
  With the menu opened on \<open>/\<close>, a click on the desktop link Docs leads to \<open>/docs\<close> and
  leaves \<open>isOpen\<close> true; with the menu opened on \<open>/docs\<close>, a click on the link around the
  logo leads to \<open>/\<close> and leaves \<open>isOpen\<close> true.
\<close>

theorem menu_stays_open_on_desktop_and_logo_links:
  "nav_run [MenuButtonClick, DesktopLinkClick 1] (nav_init ''/'')
     = Some \<lparr>isOpen = True, scrolled = False, pathname = ''/docs''\<rparr> \<and>
   nav_run [MenuButtonClick, LogoClick] (nav_init ''/docs'')
     = Some \<lparr>isOpen = True, scrolled = False, pathname = ''/''\<rparr>"
  by (simp add: nav_defs)

text \<open>
  Claim C3. After a scroll event at an offset of at most 50 pixels \<open>scrolled\<close> is
  false, after one at an offset above 50 pixels it is true. The value after the event
  is a function of the offset of that event alone, \<open>50 < y\<close>, whatever the state before
  was: so scrolling back to an offset of at most 50 takes it back to false, scrolling
  down again makes it true again, and a repeated event at the same offset changes
  nothing.
\<close>

theorem isScrolled_follows_threshold:
  assumes "lo \<le> 50" and "50 < hi"
  shows "nav_step (Scroll y) s = Some (handleScroll y s) \<and>
         scrolled (handleScroll y s) = (50 < y) \<and>
         \<not> scrolled (handleScroll lo s) \<and>
         scrolled (handleScroll hi s) \<and>
         \<not> scrolled (handleScroll lo (handleScroll hi s)) \<and>
         scrolled (handleScroll hi (handleScroll lo s)) \<and>
         handleScroll y (handleScroll y s) = handleScroll y s"
  using assms by (simp add: handleScroll_def setScrolled_def)

theorem isScrolled_follows_threshold_witness:
  "(50::real) \<le> 50 \<and> (50::real) < 50.5 \<and>
   map_option scrolled (nav_run [Scroll 50] (nav_init ''/'')) = Some False \<and>
   map_option scrolled (nav_run [Scroll 50.5] (nav_init ''/'')) = Some True \<and>
   map_option scrolled (nav_run [Scroll 50.5, Scroll 50] (nav_init ''/'')) = Some False"
proof -
  have a: "(50::real) \<le> 50" and b: "(50::real) < 50.5" by simp_all
  from isScrolled_follows_threshold[OF a b, of 50 "nav_init ''/''"]
    isScrolled_follows_threshold[OF a b, of "50.5" "nav_init ''/''"]
  show ?thesis
    by (simp add: nav_defs)
qed

text \<open>
  Claim C7. The bar has the three entries Home, Docs and Studio with the paths \<open>/\<close>,
  \<open>/docs\<close> and \<open>/studio\<close>, and renders one desktop link and one link of the mobile menu
  for each. A link has the classes of the active state (and, for a desktop link, the
  underline element) if and only if its path equals the current path; otherwise it has
  the classes of the inactive state. The routes of \<open>App\<close> are \<open>/\<close> and \<open>/docs\<close> only: a
  click on the entry Studio leads to the path \<open>/studio\<close>, for which \<open>Routes\<close> renders no
  element.
\<close>

theorem nav_highlight_and_routes:
  "map (\<lambda>item. (name item, path item)) navItems
     = [(''Home'', ''/''), (''Docs'', ''/docs''), (''Studio'', ''/studio'')] \<and>
   map to (desktopLinks p) = map path navItems \<and>
   map to (mobileLinks p) = map path navItems \<and>
   (\<forall>l \<in> set (desktopLinks p).
      (className l
         = ''relative text-sm font-medium transition-colors hover:text-primary text-primary''
         \<longleftrightarrow> to l = p) \<and>
      (className l
         = ''relative text-sm font-medium transition-colors hover:text-primary text-muted-foreground''
         \<longleftrightarrow> to l \<noteq> p) \<and>
      (underline l \<longleftrightarrow> to l = p)) \<and>
   (\<forall>l \<in> set (mobileLinks p).
      (className l
         = ''block px-4 py-2 text-sm font-medium rounded-lg transition-colors bg-primary/20 text-primary''
         \<longleftrightarrow> to l = p) \<and>
      (className l
         = ''block px-4 py-2 text-sm font-medium rounded-lg transition-colors text-muted-foreground hover:text-primary hover:bg-white/5''
         \<longleftrightarrow> to l \<noteq> p)) \<and>
   map fst routes = [''/'', ''/docs''] \<and>
   nav_step (DesktopLinkClick 2) s = Some (s\<lparr>pathname := ''/studio''\<rparr>) \<and>
   nav_step (MobileLinkClick 2) s = Some (s\<lparr>isOpen := False, pathname := ''/studio''\<rparr>) \<and>
   Routes ''/studio'' = None"
  by (simp add: nav_defs route_defs)

theorem nav_highlight_and_routes_witness:
  "map (\<lambda>l. (label l, underline l)) (desktopLinks ''/docs'')
     = [(''Home'', False), (''Docs'', True), (''Studio'', False)] \<and>
   map className (mobileLinks ''/docs'')
     = [''block px-4 py-2 text-sm font-medium rounded-lg transition-colors text-muted-foreground hover:text-primary hover:bg-white/5'',
        ''block px-4 py-2 text-sm font-medium rounded-lg transition-colors bg-primary/20 text-primary'',
        ''block px-4 py-2 text-sm font-medium rounded-lg transition-colors text-muted-foreground hover:text-primary hover:bg-white/5''] \<and>
   map_option pathname (nav_run [DesktopLinkClick 2] (nav_init ''/docs'')) = Some ''/studio'' \<and>
   Routes ''/studio'' = None \<and> Routes ''/docs'' = Some DocsPage \<and> Routes ''/'' = Some HomePage"
  using nav_highlight_and_routes[of "''/docs''" "nav_init ''/docs''"]
  by (simp add: nav_defs route_defs)

section \<open>Properties of the entrance animations\<close>

text \<open>
  Claim C9. The visibility flag of every animated element is a latch. It is false
  as long as the element has only been reported as not intersecting, it is true after
  the first report that the element intersects the viewport, and from then on it is
  true after every further sequence of reports, whatever they say: nothing sets it back
  to false.
\<close>

theorem visibility_flag_is_latch:
  "observe a (replicate n False) False = False \<and>
   observe a (replicate n False @ [True]) False = True \<and>
   observe a (replicate n False @ True # reports) False = True \<and>
   observe a reports True = True"
proof -
  have once: "viewport_once a"
    by (cases a) simp_all
  have keep: "observe a rs True = True" for rs
    by (induction rs) (simp_all add: onViewportChange_def once)
  have wait: "observe a (replicate k False @ rs) False = observe a rs False" for k rs
    by (induction k) (simp_all add: onViewportChange_def)
  from wait[of n "[]"] wait[of n "[True]"] wait[of n "True # reports"] keep show ?thesis
    by (simp add: onViewportChange_def)
qed

end
